theory Spec2Isabelle
  imports Main "HOL-Library.Word" "HOL-Library.Signed_Division"
begin

section \<open>The dice package: data\<close>

text \<open>
  Go's \<open>int\<close> is a 64-bit two's complement integer on the 64-bit targets: arithmetic
  wraps around, comparisons are signed. It is modelled as a 64-bit word, compared through
  \<open>sint\<close>.
\<close>

type_synonym goint = "64 word"

text \<open>The struct \<open>Dice\<close> of rand.go.\<close>

record Dice =
  Number :: goint
  Sides :: goint
  DropLow :: goint
  DropHigh :: goint

text \<open>
  The struct \<open>Results\<close>. \<open>Value\<close> is a \<open>*big.Int\<close>, an unbounded integer.
  A slice that can be \<open>nil\<close> is an optional list, \<open>None\<close> for \<open>nil\<close>;
  \<open>Kept\<close> and \<open>Raw\<close> are never \<open>nil\<close> when \<open>RollResults\<close> returns.
\<close>

record Results =
  Value :: int
  DroppedLow :: "goint list option"
  DroppedHigh :: "goint list option"
  Kept :: "goint list"
  Raw :: "goint list"

text \<open>The elements of a slice that may be \<open>nil\<close>: \<open>len(nil)\<close> is 0 in Go.\<close>

fun elems :: "'a list option \<Rightarrow> 'a list" where
  "elems None = []"
| "elems (Some xs) = xs"

text \<open>
  Go's \<open>error\<close> values of this package are built by \<open>fmt.Errorf\<close> and carry a
  message only; an \<open>error\<close> is modelled by its message, \<open>nil\<close> by \<open>None\<close>.
\<close>

type_synonym error = string

text \<open>
  The run-time panics the package can reach. \<open>OutOfMemory\<close> is the fatal error of the
  runtime, which ends the program as a panic that nothing recovers does: in both cases the
  call returns no result.
\<close>

datatype panic =
  MakeSliceCapOutOfRange
  | GrowSliceLenOutOfRange
  | OutOfMemory
  | SliceBoundsOutOfRange
  | IntegerDivideByZero
  | InvalidArgumentToIntn

text \<open>
  The interface \<open>Rand\<close>: one method \<open>Intn(n int) int\<close>. An implementation may
  hold state of its own and may panic. It may also hold the pointer to the \<open>Dice\<close> it
  is used with, whose fields are exported: \<open>Intn\<close> can read and write them. So a source
  is a function from its state, the \<open>Dice\<close> and the bound to a panic or the value drawn
  with the next state and the \<open>Dice\<close> as the call leaves it. A call of \<open>Intn\<close> that
  does not return is not modelled.
\<close>

type_synonym 's Rand = "'s \<Rightarrow> Dice \<Rightarrow> goint \<Rightarrow> panic + (goint \<times> 's \<times> Dice)"

text \<open>
  Three facts of the Go runtime and the machine that \<open>make\<close> and \<open>append\<close> depend on
  are parameters: \<open>maxAlloc\<close>, the size in bytes above which the runtime refuses an
  allocation (a \<open>uintptr\<close>); \<open>memory\<close>, the size in bytes of the largest array the
  system has memory for; and \<open>nextcap\<close>, the capacity that \<open>append\<close> gives a slice
  it has to grow, from the old capacity and the length needed. The small allocations of
  fixed size (the \<open>Results\<close>, the \<open>big.Int\<close>, the strings) are taken to succeed.
\<close>

record runtime =
  maxAlloc :: "64 word"
  memory :: int
  nextcap :: "nat \<Rightarrow> nat \<Rightarrow> nat"

text \<open>
  A slice of \<open>int\<close>: its elements up to its length, and its capacity. The memory between
  the length and the capacity holds zeros, as the runtime clears what \<open>make\<close> and
  \<open>append\<close> allocate and nothing here writes beyond the length.
\<close>

type_synonym intslice = "goint list \<times> nat"

section \<open>Formatting\<close>

text \<open>
  The verb \<open>%d\<close> of \<open>fmt\<close> prints a signed integer in decimal, with a leading
  minus sign when it is negative and no padding.
\<close>

fun dec_nat :: "nat \<Rightarrow> string" where
  "dec_nat n =
     (if n < 10 then [char_of (48 + n)]
      else dec_nat (n div 10) @ [char_of (48 + n mod 10)])"

declare dec_nat.simps [simp del]

definition fmt_d :: "goint \<Rightarrow> string" where
  "fmt_d v =
     (if sint v < 0 then CHR ''-'' # dec_nat (nat (- sint v)) else dec_nat (nat (sint v)))"

section \<open>The error constructors\<close>

definition ErrNumberTooLow :: "goint \<Rightarrow> error" where
  "ErrNumberTooLow num = ''number of dice is too low: '' @ fmt_d num"

definition ErrSidesTooLow :: "goint \<Rightarrow> error" where
  "ErrSidesTooLow num = ''number of sides is too low: '' @ fmt_d num"

definition ErrDropLowTooLow :: "goint \<Rightarrow> error" where
  "ErrDropLowTooLow num = ''number of low dice to drop must be positive: '' @ fmt_d num"

definition ErrDropHighTooLow :: "goint \<Rightarrow> error" where
  "ErrDropHighTooLow num = ''number of high dice to drop must be positive: '' @ fmt_d num"

definition ErrTooManyDropped :: "goint \<Rightarrow> goint \<Rightarrow> goint \<Rightarrow> error" where
  "ErrTooManyDropped low high num =
     ''too many dice dropped: '' @ fmt_d low @ '' + '' @ fmt_d high @ '' >= '' @ fmt_d num"

section \<open>Construction, validation and display\<close>

text \<open>
  The methods of \<open>Dice\<close> have a pointer receiver. A method is modelled as a function of
  the value its receiver points to, and returns, beside its result, the value the receiver
  points to when the method returns.
\<close>

text \<open>
  \<open>Validate\<close>: five checks in sequence, the first that fails returns its error.
  The sum \<open>d.DropLow+d.DropHigh\<close> is a machine addition and wraps around.
\<close>

definition Validate :: "Dice \<Rightarrow> error option \<times> Dice" where
  "Validate d =
     (if sint (Number d) < 1 then (Some (ErrNumberTooLow (Number d)), d)
      else if sint (Sides d) \<le> 1 then (Some (ErrSidesTooLow (Sides d)), d)
      else if sint (DropLow d) < 0 then (Some (ErrDropLowTooLow (DropLow d)), d)
      else if sint (DropHigh d) < 0 then (Some (ErrDropHighTooLow (DropHigh d)), d)
      else if sint (DropLow d + DropHigh d) \<ge> sint (Number d)
        then (Some (ErrTooManyDropped (DropLow d) (DropHigh d) (Number d)), d)
      else (None, d))"

text \<open>
  \<open>NewExt\<close> returns the pair \<open>(*Dice, error)\<close>; each component can be \<open>nil\<close>.
\<close>

definition NewExt :: "goint \<Rightarrow> goint \<Rightarrow> goint \<Rightarrow> goint \<Rightarrow> Dice option \<times> error option" where
  "NewExt num sides droplow drophigh =
     (let d = \<lparr>Number = num, Sides = sides, DropLow = droplow, DropHigh = drophigh\<rparr>;
          (err, d') = Validate d
      in if err \<noteq> None then (None, err) else (Some d', None))"

definition New :: "goint \<Rightarrow> goint \<Rightarrow> Dice option \<times> error option" where
  "New num sides = NewExt num sides 0 0"

text \<open>\<open>String\<close>: one \<open>Sprintf\<close> for each of the four cases.\<close>

definition String :: "Dice \<Rightarrow> string \<times> Dice" where
  "String d =
     (if 0 < sint (DropLow d) then
        (if 0 < sint (DropHigh d) then
           (fmt_d (Number d) @ ''d'' @ fmt_d (Sides d) @ ''L'' @ fmt_d (DropLow d)
              @ ''H'' @ fmt_d (DropHigh d), d)
         else (fmt_d (Number d) @ ''d'' @ fmt_d (Sides d) @ ''L'' @ fmt_d (DropLow d), d))
      else if 0 < sint (DropHigh d) then
        (fmt_d (Number d) @ ''d'' @ fmt_d (Sides d) @ ''H'' @ fmt_d (DropHigh d), d)
      else (fmt_d (Number d) @ ''d'' @ fmt_d (Sides d), d))"

section \<open>Rolling\<close>

text \<open>
  \<open>make([]int, 0, cap)\<close>, as \<open>makeslice\<close> of the runtime does it for elements of 8
  bytes: it panics when the size \<open>8 * uintptr(cap)\<close> overflows or exceeds
  \<open>maxAlloc\<close>, which covers a negative \<open>cap\<close>; then the allocation fails when the
  system has no memory for it.
\<close>

definition makeslice :: "runtime \<Rightarrow> goint \<Rightarrow> panic + intslice" where
  "makeslice rt cap =
     (if 2 ^ 64 \<le> 8 * uint cap \<or> uint (maxAlloc rt) < 8 * uint cap
      then Inl MakeSliceCapOutOfRange
      else if memory rt < 8 * uint cap then Inl OutOfMemory
      else Inr ([], unat cap))"

text \<open>
  \<open>append(s, v)\<close> writes in place while the length is below the capacity; otherwise
  \<open>growslice\<close> moves the elements to a new array of at least the length needed; it
  panics when the size of that array exceeds \<open>maxAlloc\<close> and fails when the system
  has no memory for it.
\<close>

definition append_int :: "runtime \<Rightarrow> intslice \<Rightarrow> goint \<Rightarrow> panic + intslice" where
  "append_int rt sl v =
     (case sl of (xs, cap) \<Rightarrow>
        if length xs < cap then Inr (xs @ [v], cap)
        else
          let newcap = max (length xs + 1) (nextcap rt cap (length xs + 1))
          in if uint (maxAlloc rt) < 8 * int newcap then Inl GrowSliceLenOutOfRange
             else if memory rt < 8 * int newcap then Inl OutOfMemory
             else Inr (xs @ [v], newcap))"

text \<open>
  The slice expression \<open>s[lo:hi]\<close> of Go panics unless \<open>0 \<le> lo \<le> hi \<le> cap(s)\<close>;
  it can reach beyond the length of \<open>s\<close>, into the zeros. \<open>s[lo:]\<close> is
  \<open>s[lo:len(s)]\<close>.
\<close>

definition slice :: "intslice \<Rightarrow> int \<Rightarrow> int \<Rightarrow> panic + goint list" where
  "slice sl lo hi =
     (case sl of (xs, cap) \<Rightarrow>
        if 0 \<le> lo \<and> lo \<le> hi \<and> hi \<le> int cap
        then Inr (take (nat (hi - lo)) (drop (nat lo) (xs @ replicate (cap - length xs) 0)))
        else Inl SliceBoundsOutOfRange)"

text \<open>
  The first loop of \<open>RollResults\<close>:
  \<^verbatim>\<open>for i := 0; i < d.Number; i++ { results.Raw = append(results.Raw, r.Intn(d.Sides)+1) }\<close>
  The counter and the increment of the value drawn are machine integers. Each round reads
  \<open>d.Number\<close> and \<open>d.Sides\<close> anew, as \<open>Intn\<close> left them. The loop ends whatever
  the source does to \<open>d.Number\<close>: each round appends an element, and \<open>append\<close>
  fails once the slice would exceed \<open>maxAlloc\<close>.
\<close>

function roll_loop :: "runtime \<Rightarrow> 's Rand \<Rightarrow> goint \<Rightarrow> intslice \<Rightarrow> 's \<Rightarrow> Dice \<Rightarrow> panic + (intslice \<times> 's \<times> Dice)" where
  "roll_loop rt r i raw s d =
     (if sint i < sint (Number d) then
        (case r s d (Sides d) of
           Inl p \<Rightarrow> Inl p
         | Inr (v, s', d') \<Rightarrow>
             (case append_int rt raw (v + 1) of
                Inl p \<Rightarrow> Inl p
              | Inr raw' \<Rightarrow> roll_loop rt r (i + 1) raw' s' d'))
      else Inr (raw, s, d))"
  by pat_completeness auto
termination
  apply (relation "measure (\<lambda>(rt, r, i, raw, s, d).
           max (snd raw) (unat (maxAlloc rt) div 8) + 1 - length (fst raw))")
   apply simp
  subgoal premises prems for rt r i raw s d x v y s' d' raw'
  proof -
    obtain xs cap where raw: "raw = (xs, cap)"
      by (cases raw)
    define m where "m = unat (maxAlloc rt) div 8"
    define c where "c = max (length xs + 1) (nextcap rt cap (length xs + 1))"
    have "max (snd raw') m + 1 - length (fst raw') < max cap m + 1 - length xs"
    proof (cases "length xs < cap")
      case True
      with prems raw have "raw' = (xs @ [v + 1], cap)"
        by (simp add: append_int_def)
      with True show ?thesis by simp
    next
      case False
      with prems raw have fit: "\<not> uint (maxAlloc rt) < 8 * int c"
        and raw': "raw' = (xs @ [v + 1], c)"
        by (simp_all add: append_int_def c_def Let_def split: if_splits)
      from fit have "int (8 * c) \<le> int (unat (maxAlloc rt))"
        by simp
      then have "8 * c \<le> unat (maxAlloc rt)"
        by (simp only: of_nat_le_iff)
      then have "c \<le> m"
        by (simp add: m_def)
      moreover have "length xs + 1 \<le> c"
        by (simp add: c_def)
      ultimately show ?thesis
        using raw' by simp
    qed
    then show ?thesis
      by (simp add: raw m_def)
  qed
  done

declare roll_loop.simps [simp del]

text \<open>
  The second loop adds the kept values into the \<open>big.Int\<close>, each converted by
  \<open>int64(v)\<close>.
\<close>

definition sum_kept :: "int \<Rightarrow> goint list \<Rightarrow> int" where
  "sum_kept value kept = foldl (\<lambda>value v. value + sint v) value kept"

text \<open>
  \<open>RollResults\<close>. \<open>sort.Ints\<close> sorts the elements of \<open>Raw\<close> in increasing signed
  order: as equal integers cannot be told apart, its result is the sorted list whatever
  algorithm it runs. The drop counts and the number are read after the loop, as the last
  \<open>Intn\<close> left them.
\<close>

definition RollResults :: "runtime \<Rightarrow> Dice \<Rightarrow> 's Rand \<Rightarrow> 's \<Rightarrow> panic + (Results \<times> Dice \<times> 's)" where
  "RollResults rt d r s =
     (case makeslice rt (Number d) of
        Inl p \<Rightarrow> Inl p
      | Inr made \<Rightarrow>
          case roll_loop rt r 0 made s d of
            Inl p \<Rightarrow> Inl p
          | Inr (drawn, s', d') \<Rightarrow>
              let raw = (sort_key sint (fst drawn), snd drawn) in
              case (if 0 < sint (DropLow d')
                    then map_sum id Some (slice raw 0 (sint (DropLow d')))
                    else Inr None) of
                Inl p \<Rightarrow> Inl p
              | Inr low \<Rightarrow>
                  case (if 0 < sint (DropHigh d')
                        then map_sum id Some
                               (slice raw (sint (Number d' - DropHigh d'))
                                  (int (length (fst raw))))
                        else Inr None) of
                    Inl p \<Rightarrow> Inl p
                  | Inr high \<Rightarrow>
                      case slice raw (sint (DropLow d')) (sint (Number d' - DropHigh d')) of
                        Inl p \<Rightarrow> Inl p
                      | Inr kept \<Rightarrow>
                          Inr (\<lparr>Value = sum_kept 0 kept, DroppedLow = low,
                                DroppedHigh = high, Kept = kept, Raw = fst raw\<rparr>, d', s'))"

definition RollRand :: "runtime \<Rightarrow> Dice \<Rightarrow> 's Rand \<Rightarrow> 's \<Rightarrow> panic + (int \<times> Dice \<times> 's)" where
  "RollRand rt d r s =
     (case RollResults rt d r s of
        Inl p \<Rightarrow> Inl p
      | Inr (results, d', s') \<Rightarrow> Inr (Value results, d', s'))"

text \<open>
  \<open>Roll\<close> calls \<open>RollRand\<close> with the package variable \<open>StdRand\<close>, whose
  \<open>Intn\<close> is \<open>rand.Intn\<close> of the standard library; the generator and its state are
  parameters here.
\<close>

definition Roll :: "runtime \<Rightarrow> 's Rand \<Rightarrow> 's \<Rightarrow> Dice \<Rightarrow> panic + (int \<times> Dice \<times> 's)" where
  "Roll rt StdRand g d = RollRand rt d StdRand g"

section \<open>The sources of the tests\<close>

text \<open>\<open>mockMaxRand\<close> has no state and returns \<open>n - 1\<close>.\<close>

definition mockMaxRand :: "unit Rand" where
  "mockMaxRand s d n = Inr (n - 1, s, d)"

text \<open>
  \<open>mockIterRand\<close> holds a counter: \<open>v := r.Value % n; r.Value++\<close>. Go's \<open>%\<close>
  truncates towards zero and panics when the divisor is 0.
\<close>

definition mockIterRand :: "goint Rand" where
  "mockIterRand val d n =
     (if n = 0 then Inl IntegerDivideByZero
      else Inr (word_of_int (sint val smod sint n), val + 1, d))"

section \<open>Further sources and a runtime\<close>

text \<open>
  A source that the package admits, as \<open>Rand\<close> is an exported interface: it holds the
  pointer to the \<open>Dice\<close> it is used with, and its \<open>Intn\<close> sets \<open>DropLow\<close> to 1
  and returns 0.
  \<^verbatim>\<open>type writeRand struct{ d *Dice }\<close>
  \<^verbatim>\<open>func (w writeRand) Intn(n int) int { w.d.DropLow = 1; return 0 }\<close>
\<close>

definition writeRand :: "unit Rand" where
  "writeRand s d n = Inr (0, s, d\<lparr>DropLow := 1\<rparr>)"

text \<open>
  An instance of the parameters: the \<open>maxAlloc\<close> of linux/amd64 (48 address bits),
  16 GiB of memory, and a capacity that at least doubles.
\<close>

definition linux_amd64 :: runtime where
  "linux_amd64 =
     \<lparr>maxAlloc = 281474976710656, memory = 17179869184,
      nextcap = (\<lambda>oldcap newlen. max newlen (2 * oldcap))\<rparr>"

section \<open>The conditions of the specification\<close>

text \<open>
  A valid specification, as the data model states it, over the mathematical integers:
  at least one die, at least two sides, no negative drop count, and at least one die left
  after dropping.
\<close>

definition valid_spec :: "Dice \<Rightarrow> bool" where
  "valid_spec d \<longleftrightarrow>
     1 \<le> sint (Number d) \<and> 2 \<le> sint (Sides d) \<and> 0 \<le> sint (DropLow d) \<and>
     0 \<le> sint (DropHigh d) \<and> sint (DropLow d) + sint (DropHigh d) < sint (Number d)"

text \<open>
  A source that keeps the contract of \<open>Intn\<close>: for a positive bound \<open>n\<close> it
  returns, from any state and on any \<open>Dice\<close>, a value in \<open>[0, n)\<close>. The contract says nothing for other
  bounds, where the interval is empty.
\<close>

definition good_rand :: "'s Rand \<Rightarrow> bool" where
  "good_rand r \<longleftrightarrow>
     (\<forall>s d n. 0 < sint n \<longrightarrow>
        (\<exists>v s' d'. r s d n = Inr (v, s', d') \<and> 0 \<le> sint v \<and> sint v < sint n))"

text \<open>
  A specification whose \<open>Number\<close> values of 8 bytes the runtime can allocate.
\<close>

definition fits :: "runtime \<Rightarrow> Dice \<Rightarrow> bool" where
  "fits rt d \<longleftrightarrow>
     8 * sint (Number d) \<le> uint (maxAlloc rt) \<and> 8 * sint (Number d) \<le> memory rt"

text \<open>A source that does not write the \<open>Dice\<close>.\<close>

definition keeps_dice :: "'s Rand \<Rightarrow> bool" where
  "keeps_dice r \<longleftrightarrow> (\<forall>s d n v s' d'. r s d n = Inr (v, s', d') \<longrightarrow> d' = d)"

text \<open>\<open>n\<close> calls of \<open>Validate\<close> in succession on one receiver, with their results.\<close>

fun Validate_times :: "nat \<Rightarrow> Dice \<Rightarrow> error option list \<times> Dice" where
  "Validate_times 0 d = ([], d)"
| "Validate_times (Suc n) d =
     (let (err, d') = Validate d; (errs, d'') = Validate_times n d' in (err # errs, d''))"

section \<open>Machine arithmetic without overflow\<close>

lemma sint_succ_below:
  fixes i n :: goint
  assumes "sint i < sint n"
  shows "sint (i + 1) = sint i + 1"
proof -
  have "sint n < 2 ^ 63" using sint_lt [of n] by simp
  moreover have "- (2 ^ 63) \<le> sint i" using sint_ge [of i] by simp
  ultimately have "- (2 ^ 63) \<le> sint i + 1 \<and> sint i + 1 < 2 ^ 63" using assms by simp
  then show ?thesis
    by (simp add: sint_word_ariths signed_take_bit_int_eq_self)
qed

lemma sint_add_small:
  fixes a b :: goint
  assumes "0 \<le> sint a" "0 \<le> sint b" "sint a + sint b < 2 ^ 63"
  shows "sint (a + b) = sint a + sint b"
  using assms by (simp add: sint_word_ariths signed_take_bit_int_eq_self)

lemma sint_sub_small:
  fixes a b :: goint
  assumes "0 \<le> sint b" "sint b \<le> sint a"
  shows "sint (a - b) = sint a - sint b"
proof -
  have "sint a < 2 ^ 63" using sint_lt [of a] by simp
  then have "- (2 ^ 63) \<le> sint a - sint b \<and> sint a - sint b < 2 ^ 63"
    using assms by simp
  then show ?thesis
    by (simp add: sint_word_ariths signed_take_bit_int_eq_self)
qed

lemma uint_nonneg_sint:
  fixes a :: goint
  assumes "0 \<le> sint a"
  shows "uint a = sint a"
proof -
  have "sint a < 2 ^ 63" using sint_lt [of a] by simp
  then have "sint a < 2 ^ 64" by simp
  with assms have "take_bit 64 (sint a) = sint a"
    by (simp add: take_bit_int_eq_self)
  then show ?thesis
    by (simp add: uint_sint)
qed

lemma uint_neg_sint:
  fixes a :: goint
  assumes "sint a < 0"
  shows "uint a = sint a + 2 ^ 64"
proof -
  have "- (2 ^ 63) \<le> sint a" using sint_ge [of a] by simp
  with assms have "0 \<le> sint a + 2 ^ 64" "sint a + 2 ^ 64 < 2 ^ 64"
    by simp_all
  then have "take_bit 64 (sint a + 2 ^ 64) = sint a + 2 ^ 64"
    by (simp add: take_bit_int_eq_self)
  moreover have "take_bit 64 (sint a + 2 ^ 64) = take_bit 64 (sint a)"
    by (simp add: take_bit_eq_mod)
  ultimately show ?thesis
    by (simp add: uint_sint)
qed

section \<open>Allocation\<close>

text \<open>
  \<open>make\<close> succeeds exactly when the capacity is not negative and its 8-byte elements
  fit \<open>maxAlloc\<close> and the memory.
\<close>

lemma makeslice_iff:
  "makeslice rt cap =
     (if 0 \<le> sint cap \<and> 8 * sint cap \<le> uint (maxAlloc rt)
      then (if memory rt < 8 * sint cap then Inl OutOfMemory else Inr ([], nat (sint cap)))
      else Inl MakeSliceCapOutOfRange)"
proof (cases "0 \<le> sint cap")
  case True
  then have u: "uint cap = sint cap"
    by (rule uint_nonneg_sint)
  have "uint (maxAlloc rt) < 2 ^ 64"
    using uint_bounded [of "maxAlloc rt"] by simp
  with True u show ?thesis
    by (auto simp: makeslice_def unat_eq_nat_uint)
next
  case False
  then have "uint cap = sint cap + 2 ^ 64"
    by (intro uint_neg_sint) simp
  moreover have "- (2 ^ 63) \<le> sint cap" using sint_ge [of cap] by simp
  ultimately have "2 ^ 64 \<le> 8 * uint cap"
    by simp
  with False show ?thesis
    by (simp add: makeslice_def)
qed

lemma makeslice_too_large:
  "2 ^ 61 \<le> sint cap \<Longrightarrow> makeslice rt cap = Inl MakeSliceCapOutOfRange"
proof -
  assume "2 ^ 61 \<le> sint cap"
  moreover have "uint (maxAlloc rt) < 2 ^ 64"
    using uint_bounded [of "maxAlloc rt"] by simp
  ultimately show ?thesis
    by (simp add: makeslice_iff)
qed

section \<open>The loops of RollResults\<close>

lemma sum_kept_eq: "sum_kept a xs = a + sum_list (map sint xs)"
  unfolding sum_kept_def by (induction xs arbitrary: a) simp_all

lemma good_randD:
  "good_rand r \<Longrightarrow> 0 < sint n \<Longrightarrow>
     \<exists>v s' d'. r s d n = Inr (v, s', d') \<and> 0 \<le> sint v \<and> sint v < sint n"
  unfolding good_rand_def by blast

lemma keeps_diceD:
  "keeps_dice r \<Longrightarrow> r s d n = Inr (v, s', d') \<Longrightarrow> d' = d"
  unfolding keeps_dice_def by blast

lemma roll_loop_keeps:
  assumes "keeps_dice r"
  shows "roll_loop rt r i raw s d = Inr (raw', s', d') \<Longrightarrow> d' = d"
  using assms
proof (induction rt r i raw s d rule: roll_loop.induct)
  case (1 rt r i raw s d)
  show ?case
  proof (cases "sint i < sint (Number d)")
    case False
    with "1.prems" show ?thesis
      by (simp add: roll_loop.simps [of rt r i raw s d])
  next
    case True
    from "1.prems"(1) True obtain v s1 d1 raw1
      where draw: "r s d (Sides d) = Inr (v, s1, d1)"
        and app: "append_int rt raw (v + 1) = Inr raw1"
        and rec: "roll_loop rt r (i + 1) raw1 s1 d1 = Inr (raw', s', d')"
      by (auto simp: roll_loop.simps [of rt r i raw s d] split: sum.splits)
    have "d1 = d"
      using "1.prems"(2) draw by (rule keeps_diceD)
    moreover have "d' = d1"
      using "1.IH" [OF True draw refl refl app rec "1.prems"(2)] .
    ultimately show ?thesis by simp
  qed
qed

lemma roll_loop_good:
  assumes "good_rand r" "keeps_dice r" "0 < sint (Sides d)"
    and "int (length xs) + (sint (Number d) - sint i) \<le> int cap"
  shows "\<exists>drawn s'. roll_loop rt r i (xs, cap) s d = Inr ((xs @ drawn, cap), s', d)
           \<and> int (length drawn) = max 0 (sint (Number d) - sint i)
           \<and> (\<forall>v \<in> set drawn. 1 \<le> sint v \<and> sint v \<le> sint (Sides d))"
  using assms
proof (induction rt r i "(xs, cap)" s d arbitrary: xs rule: roll_loop.induct)
  case (1 rt r i s d)
  show ?case
  proof (cases "sint i < sint (Number d)")
    case False
    then show ?thesis
      by (simp add: roll_loop.simps [of rt r i "(xs, cap)" s d])
  next
    case True
    have "\<exists>v s1 d1. r s d (Sides d) = Inr (v, s1, d1) \<and> 0 \<le> sint v \<and> sint v < sint (Sides d)"
      using "1.prems"(1,3) by (rule good_randD)
    then obtain v s1 d1 where draw0: "r s d (Sides d) = Inr (v, s1, d1)"
      and v: "0 \<le> sint v" "sint v < sint (Sides d)"
      by blast
    have "d1 = d"
      using "1.prems"(2) draw0 by (rule keeps_diceD)
    with draw0 have draw: "r s d (Sides d) = Inr (v, s1, d)"
      by simp
    have v1: "sint (v + 1) = sint v + 1"
      using v(2) by (rule sint_succ_below)
    have i1: "sint (i + 1) = sint i + 1"
      using True by (rule sint_succ_below)
    have room: "length xs < cap"
      using True "1.prems"(4) by simp
    then have app: "append_int rt (xs, cap) (v + 1) = Inr (xs @ [v + 1], cap)"
      by (simp add: append_int_def)
    have room': "int (length (xs @ [v + 1])) + (sint (Number d) - sint (i + 1)) \<le> int cap"
      using "1.prems"(4) i1 by simp
    from "1.hyps" [OF True draw refl refl app "1.prems"(1,2,3) room']
    obtain drawn s' where rec: "roll_loop rt r (i + 1) (xs @ [v + 1], cap) s1 d
          = Inr (((xs @ [v + 1]) @ drawn, cap), s', d)"
      and len: "int (length drawn) = max 0 (sint (Number d) - sint (i + 1))"
      and rng: "\<forall>v \<in> set drawn. 1 \<le> sint v \<and> sint v \<le> sint (Sides d)"
      by blast
    have "roll_loop rt r i (xs, cap) s d = Inr ((xs @ (v + 1) # drawn, cap), s', d)"
      using True draw app rec by (simp add: roll_loop.simps [of rt r i "(xs, cap)" s d])
    moreover have "int (length ((v + 1) # drawn)) = max 0 (sint (Number d) - sint i)"
      using len i1 True by simp
    moreover have "\<forall>w \<in> set ((v + 1) # drawn). 1 \<le> sint w \<and> sint w \<le> sint (Sides d)"
      using rng v v1 by simp
    ultimately show ?thesis by blast
  qed
qed

lemma roll_loop_step:
  assumes "sint i < sint (Number d)" and "length xs < cap"
  shows "roll_loop rt r i (xs, cap) s d =
     (case r s d (Sides d) of
        Inl p \<Rightarrow> Inl p
      | Inr (v, s', d') \<Rightarrow> roll_loop rt r (i + 1) (xs @ [v + 1], cap) s' d')"
  using assms
  by (simp add: roll_loop.simps [of rt r i "(xs, cap)" s d] append_int_def
        split: sum.splits)

lemma roll_loop_stop:
  assumes "\<not> sint i < sint (Number d)"
  shows "roll_loop rt r i raw s d = Inr (raw, s, d)"
  using assms by (simp add: roll_loop.simps [of rt r i raw s d])

lemma RollResults_valid:
  assumes "valid_spec d" "good_rand r" "keeps_dice r" "fits rt d"
  shows "\<exists>drawn s'.
    roll_loop rt r 0 ([], nat (sint (Number d))) s d
      = Inr ((drawn, nat (sint (Number d))), s', d)
    \<and> int (length drawn) = sint (Number d)
    \<and> (\<forall>v \<in> set drawn. 1 \<le> sint v \<and> sint v \<le> sint (Sides d))
    \<and> RollResults rt d r s =
        Inr (let raw = sort_key sint drawn;
                 kept = take (nat (sint (Number d) - sint (DropLow d) - sint (DropHigh d)))
                          (drop (nat (sint (DropLow d))) raw)
             in \<lparr>Value = sum_list (map sint kept),
                 DroppedLow = (if 0 < sint (DropLow d)
                               then Some (take (nat (sint (DropLow d))) raw) else None),
                 DroppedHigh = (if 0 < sint (DropHigh d)
                                then Some (drop (nat (sint (Number d) - sint (DropHigh d))) raw)
                                else None),
                 Kept = kept, Raw = raw\<rparr>, d, s')"
proof -
  from assms(1) have N: "1 \<le> sint (Number d)" and S: "2 \<le> sint (Sides d)"
    and L: "0 \<le> sint (DropLow d)" and H: "0 \<le> sint (DropHigh d)"
    and LH: "sint (DropLow d) + sint (DropHigh d) < sint (Number d)"
    by (simp_all add: valid_spec_def)
  define cap where "cap = nat (sint (Number d))"
  have made: "makeslice rt (Number d) = Inr ([], cap)"
    using N assms(4) by (simp add: makeslice_iff cap_def fits_def)
  from S have S0: "0 < sint (Sides d)" by simp
  have room: "int (length ([] :: goint list)) + (sint (Number d) - sint (0 :: goint)) \<le> int cap"
    using N by (simp add: cap_def)
  from roll_loop_good [OF assms(2,3) S0 room, of rt s]
  obtain drawn s' where loop: "roll_loop rt r 0 ([], cap) s d = Inr ((drawn, cap), s', d)"
    and len: "int (length drawn) = sint (Number d)"
    and rng: "\<forall>v \<in> set drawn. 1 \<le> sint v \<and> sint v \<le> sint (Sides d)"
    using N by auto
  define raw where "raw = sort_key sint drawn"
  have lraw: "int (length raw) = sint (Number d)"
    using len by (simp add: raw_def)
  have lcap: "length raw = cap"
    using lraw by (simp add: cap_def)
  have sub: "sint (Number d - DropHigh d) = sint (Number d) - sint (DropHigh d)"
    using H L LH by (intro sint_sub_small) simp_all
  have low: "slice (raw, cap) 0 (sint (DropLow d)) = Inr (take (nat (sint (DropLow d))) raw)"
    using L H LH lraw lcap by (simp add: slice_def)
  have high: "slice (raw, cap) (sint (Number d - DropHigh d)) (int (length raw))
      = Inr (drop (nat (sint (Number d) - sint (DropHigh d))) raw)"
    using L H LH lraw lcap by (simp add: slice_def sub)
  have kept: "slice (raw, cap) (sint (DropLow d)) (sint (Number d - DropHigh d))
      = Inr (take (nat (sint (Number d) - sint (DropLow d) - sint (DropHigh d)))
               (drop (nat (sint (DropLow d))) raw))"
    using L H LH lraw lcap by (simp add: slice_def sub algebra_simps)
  have "RollResults rt d r s =
        Inr (let raw = sort_key sint drawn;
                 kept = take (nat (sint (Number d) - sint (DropLow d) - sint (DropHigh d)))
                          (drop (nat (sint (DropLow d))) raw)
             in \<lparr>Value = sum_list (map sint kept),
                 DroppedLow = (if 0 < sint (DropLow d)
                               then Some (take (nat (sint (DropLow d))) raw) else None),
                 DroppedHigh = (if 0 < sint (DropHigh d)
                                then Some (drop (nat (sint (Number d) - sint (DropHigh d))) raw)
                                else None),
                 Kept = kept, Raw = raw\<rparr>, d, s')"
    using N low high kept
    by (simp add: RollResults_def made loop raw_def [symmetric] Let_def sum_kept_eq)
  with loop len rng show ?thesis
    by (auto simp: cap_def)
qed

section \<open>Validation without overflow\<close>

lemma Validate_receiver: "snd (Validate d) = d"
  by (simp add: Validate_def)

lemma Validate_valid:
  assumes "valid_spec d"
  shows "Validate d = (None, d)"
proof -
  from assms have N: "1 \<le> sint (Number d)" and S: "2 \<le> sint (Sides d)"
    and L: "0 \<le> sint (DropLow d)" and H: "0 \<le> sint (DropHigh d)"
    and LH: "sint (DropLow d) + sint (DropHigh d) < sint (Number d)"
    by (simp_all add: valid_spec_def)
  have "sint (Number d) < 2 ^ 63"
    using sint_lt [of "Number d"] by simp
  with LH have "sint (DropLow d) + sint (DropHigh d) < 2 ^ 63"
    by simp
  with L H have "sint (DropLow d + DropHigh d) = sint (DropLow d) + sint (DropHigh d)"
    by (rule sint_add_small)
  with N S L H LH show ?thesis
    by (simp add: Validate_def)
qed

text \<open>
  What the fifth check decides once the first four have passed: the sum of two
  non-negative drop counts that exceeds the largest \<open>int\<close> wraps to a negative number,
  which is below any \<open>Number\<close> that passed the first check.
\<close>

lemma sint_add_wraps:
  fixes a b :: goint
  assumes "0 \<le> sint a" "0 \<le> sint b" "2 ^ 63 \<le> sint a + sint b"
  shows "sint (a + b) = sint a + sint b - 2 ^ 64"
proof -
  have "sint a < 2 ^ 63" "sint b < 2 ^ 63"
    using sint_lt [of a] sint_lt [of b] by simp_all
  with assms have "- (2 ^ 63) \<le> sint a + sint b - 2 ^ 64 \<and> sint a + sint b - 2 ^ 64 < 2 ^ 63"
    by simp
  then have "signed_take_bit 63 (sint a + sint b - 2 ^ 64) = sint a + sint b - 2 ^ 64"
    by (simp add: signed_take_bit_int_eq_self)
  moreover have "signed_take_bit 63 (sint a + sint b - 2 ^ 64) = signed_take_bit 63 (sint a + sint b)"
    by (simp add: signed_take_bit_eq_iff_take_bit_eq take_bit_eq_mod)
  ultimately show ?thesis
    by (simp add: sint_word_ariths)
qed

lemma Validate_fifth_check:
  assumes "1 \<le> sint (Number d)" "2 \<le> sint (Sides d)"
    "0 \<le> sint (DropLow d)" "0 \<le> sint (DropHigh d)"
  shows "Validate d =
     (if sint (Number d) \<le> sint (DropLow d) + sint (DropHigh d)
         \<and> sint (DropLow d) + sint (DropHigh d) < 2 ^ 63
      then (Some (ErrTooManyDropped (DropLow d) (DropHigh d) (Number d)), d)
      else (None, d))"
proof (cases "sint (DropLow d) + sint (DropHigh d) < 2 ^ 63")
  case True
  with assms(3,4) have "sint (DropLow d + DropHigh d) = sint (DropLow d) + sint (DropHigh d)"
    by (rule sint_add_small)
  with assms True show ?thesis
    by (simp add: Validate_def)
next
  case False
  with assms(3,4) have "sint (DropLow d + DropHigh d) = sint (DropLow d) + sint (DropHigh d) - 2 ^ 64"
    by (intro sint_add_wraps) simp_all
  moreover have "sint (DropLow d) < 2 ^ 63" "sint (DropHigh d) < 2 ^ 63"
    using sint_lt [of "DropLow d"] sint_lt [of "DropHigh d"] by simp_all
  ultimately have "sint (DropLow d + DropHigh d) < sint (Number d)"
    using assms(1) by simp
  with assms False show ?thesis
    by (simp add: Validate_def)
qed

lemma NewExt_valid:
  assumes "valid_spec \<lparr>Number = num, Sides = sides, DropLow = droplow, DropHigh = drophigh\<rparr>"
  shows "NewExt num sides droplow drophigh =
     (Some \<lparr>Number = num, Sides = sides, DropLow = droplow, DropHigh = drophigh\<rparr>, None)"
  by (simp add: NewExt_def Validate_valid [OF assms])

lemma NewExt_exactly_one:
  "(\<exists>d. NewExt num sides droplow drophigh = (Some d, None))
   \<or> (\<exists>e. NewExt num sides droplow drophigh = (None, Some e))"
  by (cases "Validate \<lparr>Number = num, Sides = sides, DropLow = droplow, DropHigh = drophigh\<rparr>")
     (auto simp: NewExt_def)

section \<open>The sources\<close>

lemma good_mockMaxRand: "good_rand mockMaxRand"
proof -
  have "0 \<le> sint (n - 1) \<and> sint (n - 1) < sint n" if "0 < sint n" for n :: goint
  proof -
    have "sint (n - 1) = sint n - sint (1 :: goint)"
      using that by (intro sint_sub_small) simp_all
    with that show ?thesis by simp
  qed
  then show ?thesis
    by (simp add: good_rand_def mockMaxRand_def)
qed

lemma keeps_mockMaxRand: "keeps_dice mockMaxRand"
  by (simp add: keeps_dice_def mockMaxRand_def)

lemma keeps_mockIterRand: "keeps_dice mockIterRand"
  by (auto simp: keeps_dice_def mockIterRand_def split: if_splits)

lemma good_writeRand: "good_rand writeRand"
  by (simp add: good_rand_def writeRand_def)

section \<open>Receivers\<close>

lemma Validate_times_eq: "Validate_times n d = (replicate n (fst (Validate d)), d)"
  by (induction n) (simp_all add: Validate_receiver split_beta)

lemma RollResults_receiver:
  assumes "keeps_dice r" and "RollResults rt d r s = Inr (res, d', s')"
  shows "d' = d"
proof -
  from assms(2) obtain made drawn where "roll_loop rt r 0 made s d = Inr (drawn, s', d')"
    by (auto simp: RollResults_def Let_def split: if_splits sum.splits prod.splits)
  with assms(1) show ?thesis
    by (rule roll_loop_keeps)
qed

section \<open>Sums of bounded values\<close>

lemma sum_list_bounds:
  fixes f :: "'a \<Rightarrow> int"
  assumes "\<forall>x \<in> set xs. 1 \<le> f x \<and> f x \<le> m"
  shows "int (length xs) \<le> sum_list (map f xs) \<and> sum_list (map f xs) \<le> int (length xs) * m"
  using assms
proof (induction xs)
  case Nil
  then show ?case by simp
next
  case (Cons x xs)
  then have "int (length xs) \<le> sum_list (map f xs)"
    and "sum_list (map f xs) \<le> int (length xs) * m"
    and "1 \<le> f x" and "f x \<le> m"
    by simp_all
  then show ?case
    by (simp add: algebra_simps)
qed

lemma valid_5d20L2H1:
  "valid_spec \<lparr>Number = 5, Sides = 20, DropLow = 2, DropHigh = 1\<rparr>"
  by (simp add: valid_spec_def)

lemma fits_5d20L2H1:
  "fits linux_amd64 \<lparr>Number = 5, Sides = 20, DropLow = 2, DropHigh = 1\<rparr>"
  by (simp add: fits_def linux_amd64_def)

section \<open>The claims\<close>

text \<open>
  Claim C1, as amended. For every valid specification whose \<open>Number\<close> values of 8
  bytes the runtime can allocate, and every source that keeps the contract of \<open>Intn\<close> and
  does not write the \<open>Dice\<close>, \<open>RollResults\<close> returns a result: \<open>Raw\<close> has \<open>Number\<close>
  elements and is sorted in increasing order; \<open>DroppedLow\<close> is the first
  \<open>DropLow\<close> elements of \<open>Raw\<close>, \<open>DroppedHigh\<close> the last \<open>DropHigh\<close>
  elements, \<open>Kept\<close> the \<open>Number - DropLow - DropHigh\<close> elements between them;
  the three in this order concatenate to \<open>Raw\<close>; and \<open>Value\<close> is the sum of
  \<open>Kept\<close>.
\<close>

theorem RollResults_partition:
  assumes "valid_spec d" and "good_rand r" and "keeps_dice r" and "fits rt d"
  shows "\<exists>res s'. RollResults rt d r s = Inr (res, d, s')
    \<and> int (length (Raw res)) = sint (Number d)
    \<and> sorted (map sint (Raw res))
    \<and> int (length (elems (DroppedLow res))) = sint (DropLow d)
    \<and> elems (DroppedLow res) = take (nat (sint (DropLow d))) (Raw res)
    \<and> int (length (elems (DroppedHigh res))) = sint (DropHigh d)
    \<and> elems (DroppedHigh res) = drop (length (Raw res) - nat (sint (DropHigh d))) (Raw res)
    \<and> int (length (Kept res)) = sint (Number d) - sint (DropLow d) - sint (DropHigh d)
    \<and> Kept res = take (nat (sint (Number d) - sint (DropLow d) - sint (DropHigh d)))
                    (drop (nat (sint (DropLow d))) (Raw res))
    \<and> elems (DroppedLow res) @ Kept res @ elems (DroppedHigh res) = Raw res
    \<and> Value res = sum_list (map sint (Kept res))"
proof -
  from assms(1) have N: "1 \<le> sint (Number d)"
    and L: "0 \<le> sint (DropLow d)" and H: "0 \<le> sint (DropHigh d)"
    and LH: "sint (DropLow d) + sint (DropHigh d) < sint (Number d)"
    by (simp_all add: valid_spec_def)
  from RollResults_valid [OF assms, of s]
  obtain drawn s' res where len: "int (length drawn) = sint (Number d)"
    and res: "res = (let raw = sort_key sint drawn;
                 kept = take (nat (sint (Number d) - sint (DropLow d) - sint (DropHigh d)))
                          (drop (nat (sint (DropLow d))) raw)
             in \<lparr>Value = sum_list (map sint kept),
                 DroppedLow = (if 0 < sint (DropLow d)
                               then Some (take (nat (sint (DropLow d))) raw) else None),
                 DroppedHigh = (if 0 < sint (DropHigh d)
                                then Some (drop (nat (sint (Number d) - sint (DropHigh d))) raw)
                                else None),
                 Kept = kept, Raw = raw\<rparr>)"
    and roll: "RollResults rt d r s = Inr (res, d, s')"
    by blast
  define raw where "raw = sort_key sint drawn"
  define l h n where "l = nat (sint (DropLow d))" and "h = nat (sint (DropHigh d))"
    and "n = nat (sint (Number d))"
  have il: "sint (DropLow d) = int l" and ih: "sint (DropHigh d) = int h"
    and "in": "sint (Number d) = int n"
    using N L H by (simp_all add: l_def h_def n_def)
  have lhn: "l + h < n" using LH il ih "in" by simp
  have lraw: "length raw = n"
    using len "in" by (simp add: raw_def)
  have Raw: "Raw res = raw"
    by (simp add: res raw_def Let_def)
  have Kept: "Kept res = take (n - l - h) (drop l raw)"
    using lhn by (simp add: res raw_def Let_def il ih "in" nat_diff_distrib')
  have Low: "elems (DroppedLow res) = take l raw"
    by (simp add: res raw_def [symmetric] Let_def il)
  have High: "elems (DroppedHigh res) = drop (n - h) raw"
    using lhn lraw by (simp add: res raw_def [symmetric] Let_def il ih "in" nat_diff_distrib')
  have Val: "Value res = sum_list (map sint (Kept res))"
    by (simp add: res Let_def)
  have "take (n - l - h) (drop l raw) @ drop (n - h) raw = drop l raw"
  proof -
    have "n - h = (n - l - h) + l"
      using lhn by simp
    then have "drop (n - h) raw = drop (n - l - h) (drop l raw)"
      by (simp only: drop_drop)
    then show ?thesis
      by (simp only: append_take_drop_id)
  qed
  then have cat: "take l raw @ take (n - l - h) (drop l raw) @ drop (n - h) raw = raw"
    by simp
  have srt: "sorted (map sint raw)"
    by (simp add: raw_def)
  have k: "nat (int n - int l - int h) = n - l - h"
    using lhn by simp
  show ?thesis
    using roll lhn lraw srt cat Val
    by (simp add: Raw Kept Low High il ih "in" k)
qed

theorem RollResults_partition_witness:
  "valid_spec \<lparr>Number = 5, Sides = 20, DropLow = 2, DropHigh = 1\<rparr>
   \<and> good_rand mockMaxRand \<and> keeps_dice mockMaxRand
   \<and> fits linux_amd64 \<lparr>Number = 5, Sides = 20, DropLow = 2, DropHigh = 1\<rparr>
   \<and> (\<exists>res s'. RollResults linux_amd64
            \<lparr>Number = 5, Sides = 20, DropLow = 2, DropHigh = 1\<rparr> mockMaxRand ()
          = Inr (res, \<lparr>Number = 5, Sides = 20, DropLow = 2, DropHigh = 1\<rparr>, s')
        \<and> length (Raw res) = 5 \<and> sorted (map sint (Raw res))
        \<and> length (elems (DroppedLow res)) = 2
        \<and> length (elems (DroppedHigh res)) = 1 \<and> length (Kept res) = 2
        \<and> elems (DroppedLow res) @ Kept res @ elems (DroppedHigh res) = Raw res
        \<and> Value res = sum_list (map sint (Kept res)))"
  using RollResults_partition [OF valid_5d20L2H1 good_mockMaxRand keeps_mockMaxRand
      fits_5d20L2H1, of "()"]
    valid_5d20L2H1 good_mockMaxRand keeps_mockMaxRand fits_5d20L2H1
  by auto

text \<open>
  Claim C1 as it was stated fails twice. A valid specification of \<open>2 ^ 62\<close> dice makes
  \<open>make\<close> panic before any draw, on every runtime (\<open>makeslice_too_large\<close>).
  And a source that keeps the contract of \<open>Intn\<close> but sets \<open>DropLow\<close> to 1 makes a
  roll of three dice with nothing to drop return one dropped and two kept values.
\<close>

theorem RollResults_partition_counterexample:
  "valid_spec \<lparr>Number = 4611686018427387904, Sides = 2, DropLow = 0, DropHigh = 0\<rparr>
   \<and> good_rand mockMaxRand
   \<and> RollResults linux_amd64
         \<lparr>Number = 4611686018427387904, Sides = 2, DropLow = 0, DropHigh = 0\<rparr> mockMaxRand ()
       = Inl MakeSliceCapOutOfRange
   \<and> valid_spec \<lparr>Number = 3, Sides = 6, DropLow = 0, DropHigh = 0\<rparr>
   \<and> good_rand writeRand
   \<and> RollResults linux_amd64 \<lparr>Number = 3, Sides = 6, DropLow = 0, DropHigh = 0\<rparr> writeRand ()
       = Inr (\<lparr>Value = 2, DroppedLow = Some [1], DroppedHigh = None, Kept = [1, 1],
               Raw = [1, 1, 1]\<rparr>,
              \<lparr>Number = 3, Sides = 6, DropLow = 1, DropHigh = 0\<rparr>, ())"
proof -
  have "valid_spec \<lparr>Number = 4611686018427387904, Sides = 2, DropLow = 0, DropHigh = 0\<rparr>"
    by (simp add: valid_spec_def)
  moreover have "RollResults linux_amd64
         \<lparr>Number = 4611686018427387904, Sides = 2, DropLow = 0, DropHigh = 0\<rparr> mockMaxRand ()
       = Inl MakeSliceCapOutOfRange"
    by code_simp
  moreover have "valid_spec \<lparr>Number = 3, Sides = 6, DropLow = 0, DropHigh = 0\<rparr>"
    by (simp add: valid_spec_def)
  moreover have "RollResults linux_amd64
         \<lparr>Number = 3, Sides = 6, DropLow = 0, DropHigh = 0\<rparr> writeRand ()
       = Inr (\<lparr>Value = 2, DroppedLow = Some [1], DroppedHigh = None, Kept = [1, 1],
               Raw = [1, 1, 1]\<rparr>,
              \<lparr>Number = 3, Sides = 6, DropLow = 1, DropHigh = 0\<rparr>, ())"
    by code_simp
  ultimately show ?thesis
    using good_mockMaxRand good_writeRand by simp
qed

text \<open>
  Claim C2. \<open>Validate\<close> reports the first of the five violations, the fifth being
  that \<open>DropLow + DropHigh\<close> reaches \<open>Number\<close>. The code computes that sum in
  machine arithmetic: for one die with \<open>DropLow\<close> the largest \<open>int\<close> and
  \<open>DropHigh = 1\<close> the sum wraps to a negative number and \<open>Validate\<close> returns no
  error, although the drop counts add up to more than \<open>Number\<close>. Where the sum does
  not wrap, \<open>Validate_fifth_check\<close> above states what the code decides.
\<close>

theorem Validate_accepts_wrapped_sum:
  "Validate \<lparr>Number = 1, Sides = 2, DropLow = 9223372036854775807, DropHigh = 1\<rparr>
     = (None, \<lparr>Number = 1, Sides = 2, DropLow = 9223372036854775807, DropHigh = 1\<rparr>)
   \<and> sint (1 :: goint) \<le> sint (9223372036854775807 :: goint) + sint (1 :: goint)"
  by (simp add: Validate_def)

text \<open>
  Claim C3. \<open>NewExt\<close> returns a specification exactly for the valid inputs. It does
  for every valid input (\<open>NewExt_valid\<close>) and returns exactly one of a specification
  and an error (\<open>NewExt_exactly_one\<close>), but it also returns a specification for the
  invalid input \<open>(1, 2, 9223372036854775807, 1)\<close>, where the sum of the drop counts
  wraps around.
\<close>

theorem NewExt_accepts_wrapped_sum:
  "NewExt 1 2 9223372036854775807 1
     = (Some \<lparr>Number = 1, Sides = 2, DropLow = 9223372036854775807, DropHigh = 1\<rparr>, None)
   \<and> \<not> valid_spec \<lparr>Number = 1, Sides = 2, DropLow = 9223372036854775807, DropHigh = 1\<rparr>"
  by (simp add: NewExt_def Validate_def valid_spec_def)

text \<open>
  Claim C4. With the sequential source started at 0, rolling the specification made by
  \<open>NewExt(5, 20, 3, 0)\<close> draws \<open>[1, 2, 3, 4, 5]\<close>; \<open>Raw\<close> is
  \<open>[1, 2, 3, 4, 5]\<close>, \<open>DroppedLow\<close> is \<open>[1, 2, 3]\<close>, \<open>Kept\<close> is
  \<open>[4, 5]\<close> and \<open>Value\<close> is 9. This holds on every runtime that can allocate the
  40 bytes of the five values.
\<close>

theorem RollResults_sequential_5d20L3:
  assumes "40 \<le> uint (maxAlloc rt)" and "40 \<le> memory rt"
  shows "NewExt 5 20 3 0 = (Some \<lparr>Number = 5, Sides = 20, DropLow = 3, DropHigh = 0\<rparr>, None)
   \<and> makeslice rt 5 = Inr ([], 5)
   \<and> roll_loop rt mockIterRand 0 ([], 5) 0 \<lparr>Number = 5, Sides = 20, DropLow = 3, DropHigh = 0\<rparr>
       = Inr (([1, 2, 3, 4, 5], 5), 5, \<lparr>Number = 5, Sides = 20, DropLow = 3, DropHigh = 0\<rparr>)
   \<and> RollResults rt \<lparr>Number = 5, Sides = 20, DropLow = 3, DropHigh = 0\<rparr> mockIterRand 0
       = Inr (\<lparr>Value = 9, DroppedLow = Some [1, 2, 3], DroppedHigh = None,
               Kept = [4, 5], Raw = [1, 2, 3, 4, 5]\<rparr>,
              \<lparr>Number = 5, Sides = 20, DropLow = 3, DropHigh = 0\<rparr>, 5)"
proof -
  define D where "D = \<lparr>Number = 5, Sides = 20, DropLow = 3, DropHigh = 0\<rparr>"
  have new: "NewExt 5 20 3 0 = (Some D, None)"
    unfolding D_def by code_simp
  have made: "makeslice rt 5 = Inr ([], 5)"
    using assms by (simp add: makeslice_iff)
  have loop: "roll_loop rt mockIterRand 0 ([], 5) 0 D = Inr (([1, 2, 3, 4, 5], 5), 5, D)"
    by (simp add: roll_loop_step roll_loop_stop D_def mockIterRand_def smod_int_alt_def)
  have srt: "sort_key sint [1, 2, 3, 4, 5 :: goint] = [1, 2, 3, 4, 5]"
    by code_simp
  have three: "take 3 [1, 2, 3, 4, 5 :: goint] = [1, 2, 3]"
    and two: "take 2 (drop 3 [1, 2, 3, 4, 5 :: goint]) = [4, 5]"
    by code_simp+
  have "RollResults rt \<lparr>Number = 5, Sides = 20, DropLow = 3, DropHigh = 0\<rparr> mockIterRand 0
       = Inr (\<lparr>Value = 9, DroppedLow = Some [1, 2, 3], DroppedHigh = None,
               Kept = [4, 5], Raw = [1, 2, 3, 4, 5]\<rparr>,
              \<lparr>Number = 5, Sides = 20, DropLow = 3, DropHigh = 0\<rparr>, 5)"
    by (simp add: RollResults_def made loop [unfolded D_def] srt slice_def three two
          sum_kept_eq Let_def)
  with new made loop show ?thesis
    by (simp add: D_def)
qed

theorem RollResults_sequential_5d20L3_witness:
  "40 \<le> uint (maxAlloc linux_amd64) \<and> 40 \<le> memory linux_amd64
   \<and> RollResults linux_amd64 \<lparr>Number = 5, Sides = 20, DropLow = 3, DropHigh = 0\<rparr>
         mockIterRand 0
       = Inr (\<lparr>Value = 9, DroppedLow = Some [1, 2, 3], DroppedHigh = None,
               Kept = [4, 5], Raw = [1, 2, 3, 4, 5]\<rparr>,
              \<lparr>Number = 5, Sides = 20, DropLow = 3, DropHigh = 0\<rparr>, 5)"
proof -
  have fit: "40 \<le> uint (maxAlloc linux_amd64)" and mem: "40 \<le> memory linux_amd64"
    by (simp_all add: linux_amd64_def)
  from RollResults_sequential_5d20L3 [OF fit mem] fit mem show ?thesis
    by simp
qed

text \<open>
  Claim C5. \<open>New(num, sides)\<close> returns what \<open>NewExt(num, sides, 0, 0)\<close> returns,
  the specification and the error alike.
\<close>

theorem New_is_NewExt_without_drops:
  "New num sides = NewExt num sides 0 0"
  by (simp add: New_def)

text \<open>
  Claim C6. \<open>String\<close> returns the number, the letter d and the sides, followed by
  L and \<open>DropLow\<close> exactly when \<open>DropLow\<close> is positive, then by H and
  \<open>DropHigh\<close> exactly when \<open>DropHigh\<close> is positive; for the specification made
  by \<open>New(2, 20)\<close> it returns \<open>2d20\<close>.
\<close>

theorem String_format:
  "fst (String d) =
     fmt_d (Number d) @ ''d'' @ fmt_d (Sides d)
       @ (if 0 < sint (DropLow d) then ''L'' @ fmt_d (DropLow d) else [])
       @ (if 0 < sint (DropHigh d) then ''H'' @ fmt_d (DropHigh d) else [])
   \<and> New 2 20 = (Some \<lparr>Number = 2, Sides = 20, DropLow = 0, DropHigh = 0\<rparr>, None)
   \<and> fst (String \<lparr>Number = 2, Sides = 20, DropLow = 0, DropHigh = 0\<rparr>) = ''2d20''"
proof -
  have "fst (String d) =
     fmt_d (Number d) @ ''d'' @ fmt_d (Sides d)
       @ (if 0 < sint (DropLow d) then ''L'' @ fmt_d (DropLow d) else [])
       @ (if 0 < sint (DropHigh d) then ''H'' @ fmt_d (DropHigh d) else [])"
    by (simp add: String_def)
  moreover have "New 2 20 = (Some \<lparr>Number = 2, Sides = 20, DropLow = 0, DropHigh = 0\<rparr>, None)"
    by code_simp
  moreover have "fst (String \<lparr>Number = 2, Sides = 20, DropLow = 0, DropHigh = 0\<rparr>) = ''2d20''"
    by code_simp
  ultimately show ?thesis by blast
qed

theorem String_format_witness:
  "fst (String \<lparr>Number = 5, Sides = 20, DropLow = 2, DropHigh = 1\<rparr>) = ''5d20L2H1''
   \<and> fst (String \<lparr>Number = 5, Sides = 20, DropLow = 0, DropHigh = 1\<rparr>) = ''5d20H1''"
proof -
  have "fmt_d (5 :: goint) = ''5''" "fmt_d (20 :: goint) = ''20''" "fmt_d (2 :: goint) = ''2''"
    "fmt_d (1 :: goint) = ''1''"
    by code_simp+
  then show ?thesis
    using String_format [of "\<lparr>Number = 5, Sides = 20, DropLow = 2, DropHigh = 1\<rparr>"]
      String_format [of "\<lparr>Number = 5, Sides = 20, DropLow = 0, DropHigh = 1\<rparr>"]
    by simp
qed

text \<open>
  Claim C7. On a specification that \<open>Validate\<close> accepts, a second call accepts it
  again; any number of calls in succession return the same result each and leave the
  fields of the specification as they were.
\<close>

theorem Validate_idempotent:
  "(fst (Validate d) = None \<longrightarrow>
      fst (Validate (snd (Validate d))) = None \<and> Validate_times n d = (replicate n None, d))
   \<and> Validate_times n d = (replicate n (fst (Validate d)), d)
   \<and> snd (Validate d) = d"
  by (simp add: Validate_times_eq Validate_receiver)

theorem Validate_idempotent_witness:
  "fst (Validate \<lparr>Number = 2, Sides = 20, DropLow = 0, DropHigh = 0\<rparr>) = None
   \<and> fst (Validate (snd (Validate \<lparr>Number = 2, Sides = 20, DropLow = 0, DropHigh = 0\<rparr>))) = None
   \<and> Validate_times 3 \<lparr>Number = 2, Sides = 20, DropLow = 0, DropHigh = 0\<rparr>
       = ([None, None, None], \<lparr>Number = 2, Sides = 20, DropLow = 0, DropHigh = 0\<rparr>)"
proof -
  have ok: "fst (Validate \<lparr>Number = 2, Sides = 20, DropLow = 0, DropHigh = 0\<rparr>) = None"
    by (simp add: Validate_def)
  have three: "replicate 3 (None :: error option) = [None, None, None]"
    by (simp add: numeral_3_eq_3)
  show ?thesis
    using ok three
      Validate_idempotent [of "\<lparr>Number = 2, Sides = 20, DropLow = 0, DropHigh = 0\<rparr>" 3]
    by simp
qed

text \<open>
  Claim C8, as amended. \<open>RollResults\<close> and \<open>RollRand\<close> leave the four fields of
  their receiver unchanged when the source does not write the \<open>Dice\<close>; \<open>String\<close>
  leaves them unchanged.
\<close>

theorem receiver_unchanged:
  "(keeps_dice r \<longrightarrow> RollResults rt d r s = Inr (res, d', s') \<longrightarrow> d' = d)
   \<and> (keeps_dice r \<longrightarrow> RollRand rt d r s = Inr (t, d'', s'') \<longrightarrow> d'' = d)
   \<and> snd (String d) = d"
  by (auto simp: RollRand_def String_def split: sum.splits dest: RollResults_receiver)

theorem receiver_unchanged_witness:
  "keeps_dice mockMaxRand
   \<and> RollResults linux_amd64 \<lparr>Number = 2, Sides = 20, DropLow = 0, DropHigh = 0\<rparr>
         mockMaxRand ()
     = Inr (\<lparr>Value = 40, DroppedLow = None, DroppedHigh = None, Kept = [20, 20],
             Raw = [20, 20]\<rparr>,
            \<lparr>Number = 2, Sides = 20, DropLow = 0, DropHigh = 0\<rparr>, ())
   \<and> RollRand linux_amd64 \<lparr>Number = 2, Sides = 20, DropLow = 0, DropHigh = 0\<rparr>
         mockMaxRand ()
     = Inr (40, \<lparr>Number = 2, Sides = 20, DropLow = 0, DropHigh = 0\<rparr>, ())
   \<and> snd (String \<lparr>Number = 2, Sides = 20, DropLow = 0, DropHigh = 0\<rparr>)
     = \<lparr>Number = 2, Sides = 20, DropLow = 0, DropHigh = 0\<rparr>"
proof -
  have a: "RollResults linux_amd64 \<lparr>Number = 2, Sides = 20, DropLow = 0, DropHigh = 0\<rparr>
         mockMaxRand ()
     = Inr (\<lparr>Value = 40, DroppedLow = None, DroppedHigh = None, Kept = [20, 20],
             Raw = [20, 20]\<rparr>,
            \<lparr>Number = 2, Sides = 20, DropLow = 0, DropHigh = 0\<rparr>, ())"
    by code_simp
  have b: "RollRand linux_amd64 \<lparr>Number = 2, Sides = 20, DropLow = 0, DropHigh = 0\<rparr>
         mockMaxRand ()
     = Inr (40, \<lparr>Number = 2, Sides = 20, DropLow = 0, DropHigh = 0\<rparr>, ())"
    by code_simp
  show ?thesis
    using a b keeps_mockMaxRand
      receiver_unchanged [of mockMaxRand linux_amd64
        "\<lparr>Number = 2, Sides = 20, DropLow = 0, DropHigh = 0\<rparr>" "()"
        "\<lparr>Value = 40, DroppedLow = None, DroppedHigh = None, Kept = [20, 20], Raw = [20, 20]\<rparr>"
        "\<lparr>Number = 2, Sides = 20, DropLow = 0, DropHigh = 0\<rparr>" "()" 40
        "\<lparr>Number = 2, Sides = 20, DropLow = 0, DropHigh = 0\<rparr>" "()"]
    by simp
qed

text \<open>
  Claim C8 as it was stated, for every source, fails: the source that sets \<open>DropLow\<close>
  to 1 in \<open>Intn\<close> leaves the receiver of \<open>RollResults\<close> and of \<open>RollRand\<close> with
  \<open>DropLow = 1\<close> where it was 0.
\<close>

theorem receiver_unchanged_counterexample:
  "RollResults linux_amd64 \<lparr>Number = 3, Sides = 6, DropLow = 0, DropHigh = 0\<rparr> writeRand ()
     = Inr (\<lparr>Value = 2, DroppedLow = Some [1], DroppedHigh = None, Kept = [1, 1],
             Raw = [1, 1, 1]\<rparr>,
            \<lparr>Number = 3, Sides = 6, DropLow = 1, DropHigh = 0\<rparr>, ())
   \<and> RollRand linux_amd64 \<lparr>Number = 3, Sides = 6, DropLow = 0, DropHigh = 0\<rparr> writeRand ()
     = Inr (2, \<lparr>Number = 3, Sides = 6, DropLow = 1, DropHigh = 0\<rparr>, ())
   \<and> \<lparr>Number = 3, Sides = 6, DropLow = 1, DropHigh = 0\<rparr>
     \<noteq> \<lparr>Number = 3, Sides = 6, DropLow = 0, DropHigh = 0\<rparr>"
  by code_simp

text \<open>
  Claim C9. After \<open>Validate\<close> has returned no error, \<open>RollResults\<close> does not
  panic. The code does panic on the specification of one die with \<open>DropLow\<close> the
  largest \<open>int\<close> and \<open>DropHigh = 1\<close>: \<open>Validate\<close> accepts it, as the sum
  of the drop counts wraps around, and the slice expression \<open>Raw[:d.DropLow]\<close> is
  out of range on a slice of one element. (On a runtime that could not allocate that one
  element \<open>make\<close> would fail first.)
\<close>

theorem RollResults_panics_on_validated_spec:
  "fst (Validate \<lparr>Number = 1, Sides = 2, DropLow = 9223372036854775807, DropHigh = 1\<rparr>) = None
   \<and> RollResults linux_amd64
        \<lparr>Number = 1, Sides = 2, DropLow = 9223372036854775807, DropHigh = 1\<rparr>
        mockMaxRand () = Inl SliceBoundsOutOfRange
   \<and> RollResults rt \<lparr>Number = 1, Sides = 2, DropLow = 9223372036854775807, DropHigh = 1\<rparr>
        mockMaxRand ()
       = Inl (if uint (maxAlloc rt) < 8 then MakeSliceCapOutOfRange
              else if memory rt < 8 then OutOfMemory else SliceBoundsOutOfRange)"
proof -
  define D where "D = \<lparr>Number = 1, Sides = 2, DropLow = 9223372036854775807, DropHigh = 1\<rparr>"
  have v: "fst (Validate D) = None"
    unfolding D_def by code_simp
  have c: "RollResults linux_amd64 D mockMaxRand () = Inl SliceBoundsOutOfRange"
    unfolding D_def by code_simp
  have g: "RollResults rt D mockMaxRand ()
       = Inl (if uint (maxAlloc rt) < 8 then MakeSliceCapOutOfRange
              else if memory rt < 8 then OutOfMemory else SliceBoundsOutOfRange)"
  proof (cases "uint (maxAlloc rt) < 8 \<or> memory rt < 8")
    case True
    then show ?thesis
      by (auto simp: RollResults_def makeslice_iff D_def)
  next
    case False
    then show ?thesis
      by (simp add: RollResults_def makeslice_iff roll_loop_step roll_loop_stop
            mockMaxRand_def slice_def Let_def D_def)
  qed
  from v c g show ?thesis
    by (simp add: D_def)
qed

text \<open>
  Claim C10, as amended. For every valid specification whose \<open>Number\<close> values of 8
  bytes the runtime can allocate, and every source that keeps the contract of \<open>Intn\<close> and
  does not write the \<open>Dice\<close>, the total that \<open>RollResults\<close>, \<open>RollRand\<close> and \<open>Roll\<close>
  return lies between \<open>k\<close> and \<open>k * Sides\<close>, where
  \<open>k = Number - DropLow - DropHigh\<close> is at least 1; so the total is at least 1.
\<close>

theorem Roll_total_bounds:
  assumes "valid_spec d" and "good_rand r" and "keeps_dice r" and "fits rt d"
  shows "\<exists>res t s'. RollResults rt d r s = Inr (res, d, s') \<and> Value res = t
    \<and> RollRand rt d r s = Inr (t, d, s') \<and> Roll rt r s d = Inr (t, d, s')
    \<and> 1 \<le> sint (Number d) - sint (DropLow d) - sint (DropHigh d)
    \<and> sint (Number d) - sint (DropLow d) - sint (DropHigh d) \<le> t
    \<and> t \<le> (sint (Number d) - sint (DropLow d) - sint (DropHigh d)) * sint (Sides d)
    \<and> 1 \<le> t"
proof -
  from assms(1) have N: "1 \<le> sint (Number d)"
    and L: "0 \<le> sint (DropLow d)" and H: "0 \<le> sint (DropHigh d)"
    and LH: "sint (DropLow d) + sint (DropHigh d) < sint (Number d)"
    by (simp_all add: valid_spec_def)
  define k where "k = sint (Number d) - sint (DropLow d) - sint (DropHigh d)"
  have k1: "1 \<le> k" using LH by (simp add: k_def)
  from RollResults_valid [OF assms, of s]
  obtain drawn s' where len: "int (length drawn) = sint (Number d)"
    and rng: "\<forall>v \<in> set drawn. 1 \<le> sint v \<and> sint v \<le> sint (Sides d)"
    and roll: "RollResults rt d r s =
        Inr (let raw = sort_key sint drawn;
                 kept = take (nat (sint (Number d) - sint (DropLow d) - sint (DropHigh d)))
                          (drop (nat (sint (DropLow d))) raw)
             in \<lparr>Value = sum_list (map sint kept),
                 DroppedLow = (if 0 < sint (DropLow d)
                               then Some (take (nat (sint (DropLow d))) raw) else None),
                 DroppedHigh = (if 0 < sint (DropHigh d)
                                then Some (drop (nat (sint (Number d) - sint (DropHigh d))) raw)
                                else None),
                 Kept = kept, Raw = raw\<rparr>, d, s')"
    by blast
  define kept where "kept = take (nat k) (drop (nat (sint (DropLow d))) (sort_key sint drawn))"
  have "set kept \<subseteq> set drawn"
  proof -
    have "set kept \<subseteq> set (drop (nat (sint (DropLow d))) (sort_key sint drawn))"
      unfolding kept_def by (rule set_take_subset)
    also have "\<dots> \<subseteq> set (sort_key sint drawn)"
      by (rule set_drop_subset)
    finally show ?thesis by simp
  qed
  with rng have "\<forall>v \<in> set kept. 1 \<le> sint v \<and> sint v \<le> sint (Sides d)"
    by blast
  then have sum: "int (length kept) \<le> sum_list (map sint kept)
      \<and> sum_list (map sint kept) \<le> int (length kept) * sint (Sides d)"
    by (rule sum_list_bounds)
  have "int (length kept) = k"
    using len N L H LH by (simp add: kept_def k_def)
  with sum have bounds: "k \<le> sum_list (map sint kept)"
    "sum_list (map sint kept) \<le> k * sint (Sides d)"
    by simp_all
  have val: "Value (fst (projr (RollResults rt d r s))) = sum_list (map sint kept)"
    by (simp add: roll Let_def kept_def k_def)
  obtain res where res: "RollResults rt d r s = Inr (res, d, s')"
    using roll by blast
  with val have v: "Value res = sum_list (map sint kept)"
    by simp
  have "RollRand rt d r s = Inr (Value res, d, s')"
    by (simp add: RollRand_def res)
  moreover from this have "Roll rt r s d = Inr (Value res, d, s')"
    by (simp add: Roll_def)
  ultimately show ?thesis
    using res v bounds k1 by (simp add: k_def [symmetric])
qed

theorem Roll_total_bounds_witness:
  "valid_spec \<lparr>Number = 5, Sides = 20, DropLow = 2, DropHigh = 1\<rparr>
   \<and> good_rand mockMaxRand \<and> keeps_dice mockMaxRand
   \<and> fits linux_amd64 \<lparr>Number = 5, Sides = 20, DropLow = 2, DropHigh = 1\<rparr>
   \<and> (\<exists>t s'. RollRand linux_amd64
            \<lparr>Number = 5, Sides = 20, DropLow = 2, DropHigh = 1\<rparr> mockMaxRand ()
          = Inr (t, \<lparr>Number = 5, Sides = 20, DropLow = 2, DropHigh = 1\<rparr>, s')
        \<and> 2 \<le> t \<and> t \<le> 40)"
  using Roll_total_bounds [OF valid_5d20L2H1 good_mockMaxRand keeps_mockMaxRand
      fits_5d20L2H1, of "()"]
    valid_5d20L2H1 good_mockMaxRand keeps_mockMaxRand fits_5d20L2H1
  by auto

text \<open>
  Claim C10 as it was stated fails twice. A valid specification of \<open>2 ^ 61\<close> dice makes
  \<open>make\<close> panic, so that no total is returned. And with the source that sets
  \<open>DropLow\<close> to 1, a roll of three dice with nothing to drop returns the total 2, below
  \<open>k = 3\<close>.
\<close>

theorem Roll_total_bounds_counterexample:
  "valid_spec \<lparr>Number = 2305843009213693952, Sides = 6, DropLow = 0, DropHigh = 0\<rparr>
   \<and> good_rand mockMaxRand
   \<and> RollRand linux_amd64
         \<lparr>Number = 2305843009213693952, Sides = 6, DropLow = 0, DropHigh = 0\<rparr> mockMaxRand ()
       = Inl MakeSliceCapOutOfRange
   \<and> valid_spec \<lparr>Number = 3, Sides = 6, DropLow = 0, DropHigh = 0\<rparr>
   \<and> good_rand writeRand
   \<and> RollRand linux_amd64 \<lparr>Number = 3, Sides = 6, DropLow = 0, DropHigh = 0\<rparr> writeRand ()
       = Inr (2, \<lparr>Number = 3, Sides = 6, DropLow = 1, DropHigh = 0\<rparr>, ())
   \<and> (2 :: int) < sint (3 :: goint) - sint (0 :: goint) - sint (0 :: goint)"
proof -
  have "valid_spec \<lparr>Number = 2305843009213693952, Sides = 6, DropLow = 0, DropHigh = 0\<rparr>"
    by (simp add: valid_spec_def)
  moreover have "RollRand linux_amd64
         \<lparr>Number = 2305843009213693952, Sides = 6, DropLow = 0, DropHigh = 0\<rparr> mockMaxRand ()
       = Inl MakeSliceCapOutOfRange"
    by code_simp
  moreover have "valid_spec \<lparr>Number = 3, Sides = 6, DropLow = 0, DropHigh = 0\<rparr>"
    by (simp add: valid_spec_def)
  moreover have "RollRand linux_amd64
         \<lparr>Number = 3, Sides = 6, DropLow = 0, DropHigh = 0\<rparr> writeRand ()
       = Inr (2, \<lparr>Number = 3, Sides = 6, DropLow = 1, DropHigh = 0\<rparr>, ())"
    by code_simp
  ultimately show ?thesis
    using good_mockMaxRand good_writeRand by simp
qed

end
